theory Spec2Isabelle
  imports Main
begin

section \<open>Values, rows and backend replies\<close>

text \<open>
  The client keeps database rows as plain JavaScript objects. A row is modelled as a
  finite map from field names to values; a field that is absent reads as
  \<open>undefined\<close>, which is \<open>None\<close> here. The values are the JSON values a reply or
  a realtime payload can carry. Strict equality \<open>===\<close> on \<open>undefined\<close>, \<open>null\<close>,
  booleans, numbers parsed from JSON and strings is equality of the model values; the
  \<open>id\<close> and \<open>author_id\<close> columns are declared \<open>string\<close> in \<open>lib/supabase.ts\<close>, so
  the comparisons of the source never meet a nested object.
\<close>

datatype jsval =
    JNull
  | JBool bool
  | JNum int
  | JStr string
  | JObj "(string \<times> jsval) list"

type_synonym row = "string \<rightharpoonup> jsval"

text \<open>The object spread \<open>{ ...a, ...b }\<close>: the fields of \<open>b\<close> win.\<close>

definition spread :: "row \<Rightarrow> row \<Rightarrow> row" where
  "spread a b = a ++ b"

text \<open>
  A value that is thrown or handed back in an \<open>error\<close> field. \<open>ErrorObj m\<close> is an
  \<open>Error\<close> instance (or a backend error object) with message \<open>m\<close>; \<open>Thrown\<close> is
  any other thrown value. Both are truthy, as every error object is.
\<close>

datatype fault = ErrorObj string | Thrown

text \<open>
  What an awaited gateway call hands back: the promise rejects, or it resolves to the
  pair \<open>{ data, error }\<close>.
\<close>

datatype 'a reply = Rejects fault | Resolves "'a option" "fault option"

text \<open>
  A count-only query (\<open>select('id', { count: 'exact', head: true })\<close>) resolves to
  \<open>{ count, error }\<close>; the count is a number of rows or \<open>null\<close>.
\<close>

datatype count_reply = CountRejects fault | CountResolves "nat option" "fault option"

text \<open>
  \<open>try { body } catch (error) { handler }\<close>: a computation that may throw is a value
  of \<open>fault + 'a\<close>, \<open>Inl\<close> the thrown fault.
\<close>

definition try_catch :: "fault + 'a \<Rightarrow> (fault \<Rightarrow> fault + 'a) \<Rightarrow> fault + 'a" where
  "try_catch body handler = (case body of Inl e \<Rightarrow> handler e | Inr v \<Rightarrow> Inr v)"

text \<open>\<open>await\<close> on a gateway call: a rejection is thrown at the \<open>await\<close>.\<close>

definition await :: "'a reply \<Rightarrow> fault + ('a option \<times> fault option)" where
  "await r = (case r of Rejects e \<Rightarrow> Inl e | Resolves d e \<Rightarrow> Inr (d, e))"

section \<open>The posts hook (\<open>hooks/usePosts.ts\<close>)\<close>

text \<open>
  The state of one \<open>usePosts\<close> instance: the cached collection, the loading flag and
  the error message.
\<close>

record usePosts_state =
  posts :: "row list"
  loading :: bool
  error :: "string option"

text \<open>The result \<open>{ data, error }\<close> of a posts service call.\<close>

record 'a service_result =
  data :: "'a option"
  service_error :: "fault option"

text \<open>
  \<open>loadPosts\<close> is an asynchronous function. Its statements before the \<open>await\<close> run
  when it is called (\<open>loadPosts_begin\<close>); the rest runs when the service call has
  settled (\<open>loadPosts_end\<close>, given the service's result or the fault it rejected with).
  Each part is one atomic update of the state.
\<close>

definition loadPosts_begin :: "usePosts_state \<Rightarrow> usePosts_state" where
  "loadPosts_begin st = st\<lparr>loading := True, error := None\<rparr>"

definition loadPosts_end ::
  "fault + (row list) service_result \<Rightarrow> usePosts_state \<Rightarrow> usePosts_state" where
  "loadPosts_end result st =
     (case result of
        Inl err \<Rightarrow> st\<lparr>error := Some ''An unexpected error occurred'', loading := False\<rparr>
      | Inr res \<Rightarrow>
          (if service_error res \<noteq> None
           then st\<lparr>error := Some ''Failed to load posts'', loading := False\<rparr>
           else st\<lparr>posts := (case data res of Some d \<Rightarrow> d | None \<Rightarrow> []),
                   loading := False\<rparr>))"

text \<open>\<open>refreshPosts\<close> awaits \<open>loadPosts(initialType)\<close>; what it does when called:\<close>

definition refreshPosts_begin :: "usePosts_state \<Rightarrow> usePosts_state" where
  "refreshPosts_begin st = loadPosts_begin st"

text \<open>
  A realtime change event: \<open>INSERT\<close> and \<open>UPDATE\<close> carry \<open>payload.new\<close>,
  \<open>DELETE\<close> carries \<open>payload.old\<close>.
\<close>

datatype change = INSERT row | UPDATE row | DELETE row

text \<open>
  The callback handed to \<open>subscribeToPostChanges\<close>: the \<open>switch\<close> on
  \<open>payload.eventType\<close>. An \<open>INSERT\<close> starts a refresh and touches the collection no
  further; the reload replaces it later, in \<open>loadPosts_end\<close>.
\<close>

fun on_post_change :: "change \<Rightarrow> usePosts_state \<Rightarrow> usePosts_state" where
  "on_post_change (INSERT new) st = refreshPosts_begin st"
| "on_post_change (UPDATE new) st =
     st\<lparr>posts := map (\<lambda>post. if post ''id'' = new ''id'' then spread post new else post)
                      (posts st)\<rparr>"
| "on_post_change (DELETE old) st =
     st\<lparr>posts := filter (\<lambda>post. post ''id'' \<noteq> old ''id'') (posts st)\<rparr>"

text \<open>Events are handled one at a time, in the order of their delivery.\<close>

fun on_post_changes :: "change list \<Rightarrow> usePosts_state \<Rightarrow> usePosts_state" where
  "on_post_changes [] st = st"
| "on_post_changes (ev # evs) st = on_post_changes evs (on_post_change ev st)"

text \<open>
  The reading of an event sequence that the properties below are stated in: the
  \<open>UPDATE\<close> payloads addressed to an id, in arrival order, and whether an id has
  received a \<open>DELETE\<close>.
\<close>

fun updates_for :: "jsval option \<Rightarrow> change list \<Rightarrow> row list" where
  "updates_for i [] = []"
| "updates_for i (UPDATE new # evs) =
     (if new ''id'' = i then new # updates_for i evs else updates_for i evs)"
| "updates_for i (ev # evs) = updates_for i evs"

fun deleted_in :: "jsval option \<Rightarrow> change list \<Rightarrow> bool" where
  "deleted_in i [] = False"
| "deleted_in i (DELETE old # evs) = (old ''id'' = i \<or> deleted_in i evs)"
| "deleted_in i (ev # evs) = deleted_in i evs"

definition merged_entry :: "change list \<Rightarrow> row \<Rightarrow> row" where
  "merged_entry evs post = foldl spread post (updates_for (post ''id'') evs)"

definition surviving :: "change list \<Rightarrow> row list \<Rightarrow> row list" where
  "surviving evs ps = filter (\<lambda>post. \<not> deleted_in (post ''id'') evs) ps"

text \<open>
  The cache in time: realtime events and completions of reloads arrive in some order,
  each handled atomically.
\<close>

datatype step = Change change | Loaded "fault + (row list) service_result"

fun usePosts_step :: "step \<Rightarrow> usePosts_state \<Rightarrow> usePosts_state" where
  "usePosts_step (Change ev) st = on_post_change ev st"
| "usePosts_step (Loaded result) st = loadPosts_end result st"

fun usePosts_steps :: "step list \<Rightarrow> usePosts_state \<Rightarrow> usePosts_state" where
  "usePosts_steps [] st = st"
| "usePosts_steps (s # ss) st = usePosts_steps ss (usePosts_step s st)"

text \<open>
  The reading of a sequence of steps that the properties below are stated in: the
  collection that the last successful reload put in place (the cache at the start when
  there was none), and the events handled since then.
\<close>

fun replay :: "step list \<Rightarrow> row list \<times> change list \<Rightarrow> row list \<times> change list" where
  "replay [] be = be"
| "replay (Change ev # ss) (base, evs) = replay ss (base, evs @ [ev])"
| "replay (Loaded (Inl e) # ss) (base, evs) = replay ss (base, evs)"
| "replay (Loaded (Inr res) # ss) (base, evs) =
     (if service_error res \<noteq> None then replay ss (base, evs)
      else replay ss (case data res of Some d \<Rightarrow> d | None \<Rightarrow> [], []))"

text \<open>The ids of a collection, in its order.\<close>

definition post_ids :: "row list \<Rightarrow> jsval option list" where
  "post_ids ps = map (\<lambda>post. post ''id'') ps"

section \<open>The posts service (\<open>services/postsService.ts\<close>)\<close>

text \<open>
  Every method of \<open>PostsService\<close> awaits its gateway calls inside one
  \<open>try\<close>/\<open>catch\<close>. The model of a method takes what each awaited call hands back
  and returns \<open>Inr\<close> the value the method resolves to, or \<open>Inl\<close> the fault it
  rejects with.
\<close>

definition with_extras :: "row \<Rightarrow> row" where
  "with_extras post =
     spread post [''likes_count'' \<mapsto> JNum 0, ''comments_count'' \<mapsto> JNum 0,
                  ''user_has_liked'' \<mapsto> JBool False]"

text \<open>
  The shared shape of the list methods: \<open>if (error) return { data: null, error }\<close>,
  else \<open>data?.map(...) || []\<close>.
\<close>

definition list_result :: "row list option \<times> fault option \<Rightarrow> fault + (row list) service_result" where
  "list_result r =
     (case r of
        (d, Some e) \<Rightarrow> Inr \<lparr>data = None, service_error = Some e\<rparr>
      | (d, None) \<Rightarrow>
          Inr \<lparr>data = Some (case d of Some rows \<Rightarrow> map with_extras rows | None \<Rightarrow> []),
               service_error = None\<rparr>)"

definition getAllPosts :: "row list reply \<Rightarrow> fault + (row list) service_result" where
  "getAllPosts r =
     try_catch (case await r of Inl e \<Rightarrow> Inl e | Inr de \<Rightarrow> list_result de)
       (\<lambda>error. Inr \<lparr>data = None, service_error = Some error\<rparr>)"

definition getPostsByType :: "string \<Rightarrow> row list reply \<Rightarrow> fault + (row list) service_result" where
  "getPostsByType type r =
     try_catch (case await r of Inl e \<Rightarrow> Inl e | Inr de \<Rightarrow> list_result de)
       (\<lambda>error. Inr \<lparr>data = None, service_error = Some error\<rparr>)"

definition getUserPosts :: "string \<Rightarrow> row list reply \<Rightarrow> fault + (row list) service_result" where
  "getUserPosts userId r =
     try_catch (case await r of Inl e \<Rightarrow> Inl e | Inr de \<Rightarrow> list_result de)
       (\<lambda>error. Inr \<lparr>data = None, service_error = Some error\<rparr>)"

text \<open>
  \<open>createPost\<close> and \<open>updatePost\<close> end their query with \<open>.single()\<close>: the reply
  carries one row. \<open>{ ...data, likes_count: 0, ... }\<close> spreads \<open>null\<close> as no fields.
\<close>

definition single_result :: "row option \<times> fault option \<Rightarrow> fault + row service_result" where
  "single_result r =
     (case r of
        (d, Some e) \<Rightarrow> Inr \<lparr>data = None, service_error = Some e\<rparr>
      | (d, None) \<Rightarrow>
          Inr \<lparr>data = Some (with_extras (case d of Some post \<Rightarrow> post | None \<Rightarrow> Map.empty)),
               service_error = None\<rparr>)"

definition createPost :: "row \<Rightarrow> row reply \<Rightarrow> fault + row service_result" where
  "createPost post r =
     try_catch (case await r of Inl e \<Rightarrow> Inl e | Inr de \<Rightarrow> single_result de)
       (\<lambda>error. Inr \<lparr>data = None, service_error = Some error\<rparr>)"

definition updatePost :: "string \<Rightarrow> row \<Rightarrow> string \<Rightarrow> row reply \<Rightarrow> fault + row service_result" where
  "updatePost postId updates userId r =
     try_catch (case await r of Inl e \<Rightarrow> Inl e | Inr de \<Rightarrow> single_result de)
       (\<lambda>error. Inr \<lparr>data = None, service_error = Some error\<rparr>)"

text \<open>The result \<open>{ success, error }\<close> of \<open>deletePost\<close>.\<close>

record delete_result =
  success :: bool
  delete_error :: "fault option"

definition deletePost :: "string \<Rightarrow> string \<Rightarrow> unit reply \<Rightarrow> fault + delete_result" where
  "deletePost postId userId r =
     try_catch
       (case await r of
          Inl e \<Rightarrow> Inl e
        | Inr (d, Some e) \<Rightarrow> Inr \<lparr>success = False, delete_error = Some e\<rparr>
        | Inr (d, None) \<Rightarrow> Inr \<lparr>success = True, delete_error = None\<rparr>)
       (\<lambda>error. Inr \<lparr>success = False, delete_error = Some error\<rparr>)"

text \<open>
  \<open>searchPosts\<close>. \<open>query.trim()\<close> is empty when the query holds white space
  only (of the code units below 256: tab, line feed, vertical tab, form feed, carriage
  return, space and no-break space); the method then returns the promise of
  \<open>getAllPosts\<close>, \<open>all_reply\<close> being what that call's query hands back. Of the
  other replies, the first is the title/content search, the second the profile lookup by
  name, the third the posts of the authors found; the \<open>error\<close> fields of the second
  and third are not read. \<open>findIndex\<close> is the array method, \<open>-1\<close> when nothing
  matches.
\<close>

definition is_space :: "char \<Rightarrow> bool" where
  "is_space c = (of_char c \<in> {9, 10, 11, 12, 13, 32, 160 :: nat})"

definition trim_is_empty :: "string \<Rightarrow> bool" where
  "trim_is_empty query = list_all is_space query"

fun findIndex :: "('a \<Rightarrow> bool) \<Rightarrow> 'a list \<Rightarrow> int" where
  "findIndex P [] = - 1"
| "findIndex P (x # xs) =
     (if P x then 0 else (let i = findIndex P xs in if i < 0 then - 1 else i + 1))"

definition uniquePosts :: "row list \<Rightarrow> row list" where
  "uniquePosts combinedPosts =
     map fst (filter (\<lambda>(post, index). int index = findIndex (\<lambda>p. p ''id'' = post ''id'') combinedPosts)
                (zip combinedPosts [0 ..< length combinedPosts]))"

definition searchPosts ::
  "string \<Rightarrow> row list reply \<Rightarrow> row list reply \<Rightarrow> row list reply \<Rightarrow> row list reply
     \<Rightarrow> fault + (row list) service_result" where
  "searchPosts query all_reply r1 r2 r3 =
     (if trim_is_empty query then getAllPosts all_reply
      else
        try_catch
          (case await r1 of
             Inl e \<Rightarrow> Inl e
           | Inr (d, Some e) \<Rightarrow> Inr \<lparr>data = None, service_error = Some e\<rparr>
           | Inr (d, None) \<Rightarrow>
               (case await r2 of
                  Inl e \<Rightarrow> Inl e
                | Inr (profileData, e2) \<Rightarrow>
                    (if profileData \<noteq> None \<and> profileData \<noteq> Some [] then
                       (case await r3 of
                          Inl e \<Rightarrow> Inl e
                        | Inr (authorPosts, e3) \<Rightarrow>
                            Inr \<lparr>data = Some (map with_extras
                                   (uniquePosts ((case d of Some rows \<Rightarrow> rows | None \<Rightarrow> []) @
                                      (case authorPosts of Some rows \<Rightarrow> rows | None \<Rightarrow> [])))),
                                 service_error = None\<rparr>)
                     else list_result (d, None))))
          (\<lambda>error. Inr \<lparr>data = None, service_error = Some error\<rparr>))"

text \<open>
  \<open>getPostStats\<close> reads \<open>data.length\<close> without a guard: on \<open>data = null\<close> that
  is a \<open>TypeError\<close>, thrown inside the \<open>try\<close>.
\<close>

record post_stats =
  total_posts :: nat
  announcements :: nat
  events :: nat
  discussions :: nat
  help_requests :: nat

definition count_type :: "string \<Rightarrow> row list \<Rightarrow> nat" where
  "count_type t rows = length (filter (\<lambda>p. p ''type'' = Some (JStr t)) rows)"

definition getPostStats :: "row list reply \<Rightarrow> fault + post_stats service_result" where
  "getPostStats r =
     try_catch
       (case await r of
          Inl e \<Rightarrow> Inl e
        | Inr (d, Some e) \<Rightarrow> Inr \<lparr>data = None, service_error = Some e\<rparr>
        | Inr (None, None) \<Rightarrow> Inl (ErrorObj ''Cannot read property length of null'')
        | Inr (Some rows, None) \<Rightarrow>
            Inr \<lparr>data = Some \<lparr>total_posts = length rows,
                              announcements = count_type ''announcement'' rows,
                              events = count_type ''event'' rows,
                              discussions = count_type ''discussion'' rows,
                              help_requests = count_type ''help'' rows\<rparr>,
                 service_error = None\<rparr>)
       (\<lambda>error. Inr \<lparr>data = None, service_error = Some error\<rparr>)"

section \<open>The remote posts table under an ownership-constrained mutation\<close>

text \<open>
  Modelled from the spec: the hosted backend, which is outside the repository. The spec
  calls it a black box that takes list/get/insert/update/delete requests with equality
  filters; an ownership-constrained mutation is "an update/delete query whose filter
  includes both the target id and the acting user's id, so unauthorized attempts affect
  zero rows server-side". The table is a list of rows; a mutation touches exactly the
  rows that satisfy every \<open>.eq(column, value)\<close> of the query. A query ended by
  \<open>.single()\<close> resolves with the row when exactly one row results and with an error
  otherwise; the table is left as it was in that case (with no row matched there is
  nothing to change, and several rows cannot share the key \<open>id\<close>). A \<open>delete\<close>
  without \<open>select\<close> resolves with no data and no error, whatever it removed.
  \<open>joined\<close> stands for the joined author profile that the \<open>select\<close> asks for.
\<close>

definition matches :: "(string \<times> jsval) list \<Rightarrow> row \<Rightarrow> bool" where
  "matches eqs r = list_all (\<lambda>(column, v). r column = Some v) eqs"

definition remote_update_single ::
  "(row \<Rightarrow> row) \<Rightarrow> row \<Rightarrow> (string \<times> jsval) list \<Rightarrow> row list \<Rightarrow> row reply \<times> row list" where
  "remote_update_single joined patch eqs table =
     (case filter (matches eqs) table of
        [r] \<Rightarrow> (Resolves (Some (joined (spread r patch))) None,
                map (\<lambda>r. if matches eqs r then spread r patch else r) table)
      | _ \<Rightarrow> (Resolves None
                (Some (ErrorObj ''JSON object requested, multiple (or no) rows returned'')),
              table))"

definition remote_delete :: "(string \<times> jsval) list \<Rightarrow> row list \<Rightarrow> unit reply \<times> row list" where
  "remote_delete eqs table = (Resolves None None, filter (\<lambda>r. \<not> matches eqs r) table)"

text \<open>
  The two methods against that table: the filters are the ones the source chains,
  \<open>.eq('id', postId).eq('author_id', userId)\<close>. The result pairs what the method
  resolves to with the table afterwards.
\<close>

definition updatePost_remote ::
  "(row \<Rightarrow> row) \<Rightarrow> string \<Rightarrow> row \<Rightarrow> string \<Rightarrow> row list
     \<Rightarrow> (fault + row service_result) \<times> row list" where
  "updatePost_remote joined postId updates userId table =
     (case remote_update_single joined updates
             [(''id'', JStr postId), (''author_id'', JStr userId)] table of
        (r, table') \<Rightarrow> (updatePost postId updates userId r, table'))"

definition deletePost_remote ::
  "string \<Rightarrow> string \<Rightarrow> row list \<Rightarrow> (fault + delete_result) \<times> row list" where
  "deletePost_remote postId userId table =
     (case remote_delete [(''id'', JStr postId), (''author_id'', JStr userId)] table of
        (r, table') \<Rightarrow> (deletePost postId userId r, table'))"

section \<open>The statistics service (\<open>services/statsService.ts\<close>)\<close>

text \<open>
  The counters are JavaScript numbers. Every number the service computes is an integer
  or \<open>NaN\<close>: \<open>getTime()\<close> of a valid date is an integer count of milliseconds and
  of an invalid date \<open>NaN\<close>, and \<open>NaN\<close> is absorbing in \<open>-\<close>, \<open>/\<close>,
  \<open>Math.floor\<close> and \<open>Math.max\<close>. A comparison with \<open>NaN\<close> is false.
\<close>

datatype number = NaN | Num int

fun plus_num :: "number \<Rightarrow> number \<Rightarrow> number" where
  "plus_num (Num a) (Num b) = Num (a + b)"
| "plus_num _ _ = NaN"

fun minus_num :: "number \<Rightarrow> number \<Rightarrow> number" where
  "minus_num (Num a) (Num b) = Num (a - b)"
| "minus_num _ _ = NaN"

text \<open>\<open>Math.floor(x / k)\<close> for a positive integer constant \<open>k\<close>.\<close>

fun Math_floor_div :: "number \<Rightarrow> int \<Rightarrow> number" where
  "Math_floor_div (Num a) k = Num (a div k)"
| "Math_floor_div NaN k = NaN"

fun Math_max :: "number \<Rightarrow> number \<Rightarrow> number" where
  "Math_max (Num a) (Num b) = Num (max a b)"
| "Math_max _ _ = NaN"

fun ge_num :: "number \<Rightarrow> number \<Rightarrow> bool" where
  "ge_num (Num a) (Num b) = (a \<ge> b)"
| "ge_num _ _ = False"

record UserStats =
  filesDownloaded :: number
  eventsAttended :: number
  monthsActive :: number

text \<open>
  The singleton. A listener is a callback, known by its identity; the \<open>Set\<close> of
  listeners keeps insertion order. \<open>delivered\<close> is not a field of the class: it
  records every call \<open>callback(stats)\<close> that \<open>notify\<close> makes, in order.
\<close>

type_synonym listener = nat

record StatsService =
  listeners :: "listener list"
  currentStats :: "UserStats option"
  userId :: "string option"
  delivered :: "(listener \<times> UserStats) list"

definition new_StatsService :: StatsService where
  "new_StatsService = \<lparr>listeners = [], currentStats = None, userId = None, delivered = []\<rparr>"

definition subscribe :: "listener \<Rightarrow> StatsService \<Rightarrow> StatsService" where
  "subscribe callback s =
     s\<lparr>listeners := (if callback \<in> set (listeners s) then listeners s
                      else listeners s @ [callback])\<rparr>"

text \<open>The function that \<open>subscribe\<close> returns.\<close>

definition unsubscribe :: "listener \<Rightarrow> StatsService \<Rightarrow> StatsService" where
  "unsubscribe callback s = s\<lparr>listeners := removeAll callback (listeners s)\<rparr>"

definition notify :: "UserStats \<Rightarrow> StatsService \<Rightarrow> StatsService" where
  "notify stats s =
     s\<lparr>currentStats := Some stats,
       delivered := delivered s @ map (\<lambda>callback. (callback, stats)) (listeners s)\<rparr>"

definition getCurrentStats :: "StatsService \<Rightarrow> UserStats option" where
  "getCurrentStats s = currentStats s"

text \<open>
  \<open>loadStats\<close>. \<open>createdAt\<close> is \<open>new Date(profileCreatedAt).getTime()\<close> and
  \<open>now\<close> is \<open>new Date().getTime()\<close>. \<open>Promise.all\<close> rejects when one of the two
  queries rejects; the \<open>catch\<close> throws the fault again. The result pairs what the call
  returns or throws with the service afterwards.
\<close>

definition loadStats ::
  "string \<Rightarrow> number \<Rightarrow> int \<Rightarrow> count_reply \<Rightarrow> count_reply \<Rightarrow> StatsService
     \<Rightarrow> (fault + UserStats) \<times> StatsService" where
  "loadStats user createdAt now downloadsResult eventsResult s =
     (let s1 = s\<lparr>userId := Some user\<rparr>;
          months = Math_max (Num 1)
                     (Math_floor_div (minus_num (Num now) createdAt) (1000 * 60 * 60 * 24 * 30))
      in case (downloadsResult, eventsResult) of
           (CountRejects e, _) \<Rightarrow> (Inl e, s1)
         | (_, CountRejects e) \<Rightarrow> (Inl e, s1)
         | (CountResolves c1 e1, CountResolves c2 e2) \<Rightarrow>
             (let stats = \<lparr>filesDownloaded = Num (case c1 of Some n \<Rightarrow> int n | None \<Rightarrow> 0),
                           eventsAttended = Num (case c2 of Some n \<Rightarrow> int n | None \<Rightarrow> 0),
                           monthsActive = months\<rparr>
              in (Inr stats, notify stats s1)))"

text \<open>
  The three record operations share their shape: \<open>if (error) throw error\<close> after the
  awaited mutation, the cached counters updated and notified when there is a cache, and
  a \<open>catch\<close> that logs and throws again.
\<close>

definition insert_or_throw :: "unit reply \<Rightarrow> fault + unit" where
  "insert_or_throw r =
     try_catch
       (case await r of
          Inl e \<Rightarrow> Inl e
        | Inr (d, Some e) \<Rightarrow> Inl e
        | Inr (d, None) \<Rightarrow> Inr ())
       (\<lambda>error. Inl error)"

definition recordDownload ::
  "string \<Rightarrow> string \<Rightarrow> string \<Rightarrow> string option \<Rightarrow> unit reply \<Rightarrow> StatsService
     \<Rightarrow> (fault + unit) \<times> StatsService" where
  "recordDownload user fileName fileType fileId r s =
     (case insert_or_throw r of
        Inl e \<Rightarrow> (Inl e, s)
      | Inr u \<Rightarrow>
          (Inr (),
           case currentStats s of
             Some cur \<Rightarrow>
               notify (cur\<lparr>filesDownloaded := plus_num (filesDownloaded cur) (Num 1)\<rparr>) s
           | None \<Rightarrow> s))"

definition recordEventAttendance ::
  "string \<Rightarrow> string \<Rightarrow> string \<Rightarrow> unit reply \<Rightarrow> StatsService
     \<Rightarrow> (fault + unit) \<times> StatsService" where
  "recordEventAttendance user eventId eventName r s =
     (case insert_or_throw r of
        Inl e \<Rightarrow> (Inl e, s)
      | Inr u \<Rightarrow>
          (Inr (),
           case currentStats s of
             Some cur \<Rightarrow>
               notify (cur\<lparr>eventsAttended := plus_num (eventsAttended cur) (Num 1)\<rparr>) s
           | None \<Rightarrow> s))"

definition removeEventAttendance ::
  "string \<Rightarrow> string \<Rightarrow> unit reply \<Rightarrow> StatsService \<Rightarrow> (fault + unit) \<times> StatsService" where
  "removeEventAttendance user eventId r s =
     (case insert_or_throw r of
        Inl e \<Rightarrow> (Inl e, s)
      | Inr u \<Rightarrow>
          (Inr (),
           case currentStats s of
             Some cur \<Rightarrow>
               notify (cur\<lparr>eventsAttended :=
                             Math_max (Num 0) (minus_num (eventsAttended cur) (Num 1))\<rparr>) s
           | None \<Rightarrow> s))"

definition clear :: "StatsService \<Rightarrow> StatsService" where
  "clear s = s\<lparr>currentStats := None, userId := None, listeners := []\<rparr>"

text \<open>A call on the singleton, with what the backend hands back to it.\<close>

datatype stats_call =
    LoadStats string number int count_reply count_reply
  | RecordDownload string string string "string option" "unit reply"
  | RecordEventAttendance string string string "unit reply"
  | RemoveEventAttendance string string "unit reply"
  | Subscribe listener
  | Unsubscribe listener
  | Clear

fun do_call :: "stats_call \<Rightarrow> StatsService \<Rightarrow> StatsService" where
  "do_call (LoadStats user createdAt now r1 r2) s = snd (loadStats user createdAt now r1 r2 s)"
| "do_call (RecordDownload user fileName fileType fileId r) s =
     snd (recordDownload user fileName fileType fileId r s)"
| "do_call (RecordEventAttendance user eventId eventName r) s =
     snd (recordEventAttendance user eventId eventName r s)"
| "do_call (RemoveEventAttendance user eventId r) s = snd (removeEventAttendance user eventId r s)"
| "do_call (Subscribe callback) s = subscribe callback s"
| "do_call (Unsubscribe callback) s = unsubscribe callback s"
| "do_call Clear s = clear s"

fun stats_calls :: "stats_call list \<Rightarrow> StatsService \<Rightarrow> StatsService" where
  "stats_calls [] s = s"
| "stats_calls (c # cs) s = stats_calls cs (do_call c s)"

text \<open>
  The bounds on one value of the counters, the calls that hand \<open>loadStats\<close> a creation
  time that is a date, and the deliveries made to one listener.
\<close>

definition stats_in_range :: "UserStats \<Rightarrow> bool" where
  "stats_in_range stats =
     (ge_num (filesDownloaded stats) (Num 0) \<and> ge_num (eventsAttended stats) (Num 0) \<and>
      ge_num (monthsActive stats) (Num 1))"

fun valid_date_call :: "stats_call \<Rightarrow> bool" where
  "valid_date_call (LoadStats user createdAt now r1 r2) = (createdAt \<noteq> NaN)"
| "valid_date_call _ = True"

definition delivered_to :: "listener \<Rightarrow> StatsService \<Rightarrow> UserStats list" where
  "delivered_to callback s = map snd (filter (\<lambda>d. fst d = callback) (delivered s))"

fun is_Subscribe :: "listener \<Rightarrow> stats_call \<Rightarrow> bool" where
  "is_Subscribe callback (Subscribe c) = (c = callback)"
| "is_Subscribe callback _ = False"

text \<open>
  \<open>recordDownload\<close> of the hook \<open>useStats\<close> (\<open>hooks/useStats.ts\<close>): it throws
  when the hook has no user id, and throws again what the service throws.
\<close>

definition useStats_recordDownload ::
  "string option \<Rightarrow> string \<Rightarrow> string \<Rightarrow> string option \<Rightarrow> unit reply \<Rightarrow> StatsService
     \<Rightarrow> (fault + unit) \<times> StatsService" where
  "useStats_recordDownload user fileName fileType fileId r s =
     (case user of
        None \<Rightarrow> (Inl (ErrorObj ''User ID not available''), s)
      | Some u \<Rightarrow>
          (if u = [] then (Inl (ErrorObj ''User ID not available''), s)
           else recordDownload u fileName fileType fileId r s))"

section \<open>The auth context (\<open>context/AuthContext.tsx\<close>)\<close>

record User =
  user_id :: string
  email_confirmed_at :: "string option"

record Session =
  session_user :: User

record auth_state =
  user :: "User option"
  profile :: "row option"
  session :: "Session option"
  auth_loading :: bool

definition isAuthenticated :: "auth_state \<Rightarrow> bool" where
  "isAuthenticated st = (user st \<noteq> None \<and> session st \<noteq> None)"

text \<open>
  \<open>AuthResult\<close>; an optional field that is left out is \<open>None\<close>. The fields
  \<open>success\<close> and \<open>error\<close> of the source are \<open>auth_success\<close> and \<open>auth_error\<close>.
\<close>

record AuthResult =
  auth_success :: bool
  auth_error :: "string option"
  needsEmailConfirmation :: "bool option"
  message :: "string option"

text \<open>
  What \<open>supabase.auth.signUp\<close> hands back: a rejection, or
  \<open>{ data: { user, session }, error }\<close>.
\<close>

datatype signUp_reply =
    SignUpRejects fault
  | SignUpResolves "User option" "Session option" "fault option"

text \<open>\<open>error.message\<close>, and \<open>!s\<close> for a string that may be missing.\<close>

definition message_of :: "fault \<Rightarrow> string option" where
  "message_of e = (case e of ErrorObj m \<Rightarrow> Some m | Thrown \<Rightarrow> None)"

definition falsy :: "string option \<Rightarrow> bool" where
  "falsy s = (case s of None \<Rightarrow> True | Some t \<Rightarrow> t = [])"

text \<open>
  \<open>register\<close>: \<open>setLoading(true)\<close> runs at the call, the rest when \<open>signUp\<close> has
  settled; \<open>finally\<close> clears the flag on every path. The email, the password and the
  profile data only shape the request. \<open>register\<close> sets neither the user nor the
  session.
\<close>

definition register_begin :: "auth_state \<Rightarrow> auth_state" where
  "register_begin st = st\<lparr>auth_loading := True\<rparr>"

definition register_end ::
  "string \<Rightarrow> string \<Rightarrow> row \<Rightarrow> signUp_reply \<Rightarrow> auth_state \<Rightarrow> AuthResult \<times> auth_state" where
  "register_end email password profileData r st =
     ((case r of
         SignUpRejects err \<Rightarrow>
           \<lparr>auth_success = False,
            auth_error = Some (case err of ErrorObj m \<Rightarrow> m | Thrown \<Rightarrow> ''Registration failed''),
            needsEmailConfirmation = None, message = None\<rparr>
       | SignUpResolves u sess (Some e) \<Rightarrow>
           \<lparr>auth_success = False, auth_error = message_of e,
            needsEmailConfirmation = None, message = None\<rparr>
       | SignUpResolves None sess None \<Rightarrow>
           \<lparr>auth_success = False, auth_error = Some ''Registration failed - no user created'',
            needsEmailConfirmation = None, message = None\<rparr>
       | SignUpResolves (Some u) sess None \<Rightarrow>
           (if falsy (email_confirmed_at u) \<and> sess = None
            then \<lparr>auth_success = True, auth_error = None, needsEmailConfirmation = Some True,
                  message = Some (''Registration successful! Please check your email and '' @
                                  ''click the confirmation link to activate your account.'')\<rparr>
            else \<lparr>auth_success = True, auth_error = None, needsEmailConfirmation = Some False,
                  message = Some ''Registration successful! You can now log in.''\<rparr>)),
      st\<lparr>auth_loading := False\<rparr>)"

definition register ::
  "string \<Rightarrow> string \<Rightarrow> row \<Rightarrow> signUp_reply \<Rightarrow> auth_state \<Rightarrow> AuthResult \<times> auth_state" where
  "register email password profileData r st =
     register_end email password profileData r (register_begin st)"

section \<open>The library screen (\<open>screens/ELibraryScreen.tsx\<close>)\<close>

record LibraryFile =
  file_id :: string
  file_name :: string
  file_size :: int
  file_type :: string
  category :: string
  url :: string
  created_at :: string
  uploader_id :: string

text \<open>
  The local filename key: \<open>`${file.id}_${file.name.replace(/[^a-zA-Z0-9.]/g, '_')}`\<close>.
  A \<open>char\<close> stands for one code unit of the JavaScript string.
\<close>

definition kept :: "char \<Rightarrow> bool" where
  "kept c = (c \<in> set (''abcdefghijklmnopqrstuvwxyz'' @ ''ABCDEFGHIJKLMNOPQRSTUVWXYZ'' @
                       ''0123456789.''))"

definition sanitized :: "string \<Rightarrow> string" where
  "sanitized n = map (\<lambda>c. if kept c then c else CHR ''_'') n"

definition fileName_of :: "LibraryFile \<Rightarrow> string" where
  "fileName_of file = file_id file @ ''_'' @ sanitized (file_name file)"

text \<open>
  The screen's state, as far as a download touches it. \<open>alerts\<close>, \<open>transfers\<close> and
  \<open>recordDownload_calls\<close> are not state of the component: they record the calls of
  \<open>Alert.alert(title, message)\<close>, of \<open>FileSystem.downloadAsync(url, localUri)\<close> and
  of \<open>recordDownload(name, type, id)\<close>, in order.
\<close>

record ELibrary_state =
  downloadedFiles :: "string set"
  downloadingFiles :: "string set"
  statsService :: StatsService
  alerts :: "(string \<times> string) list"
  transfers :: "(string \<times> string) list"
  recordDownload_calls :: "(string \<times> string \<times> string) list"

text \<open>
  What one call of \<open>handleDownload\<close> meets outside the component: the button pressed
  in the dialog, the outcomes of the file-system calls (\<open>Inl\<close> when the call throws,
  otherwise \<open>exists\<close> and the transfer's status), the user id the hook holds and the
  backend's reply to the insert of the download record.
\<close>

datatype button = Cancel | Download

record download_env =
  documentDirectory :: string
  pressed :: button
  dirInfo :: "fault + bool"
  makeDirectory :: "fault option"
  downloadResult :: "fault + int"
  hook_user :: "string option"
  insert_reply :: "unit reply"

definition alert :: "string \<times> string \<Rightarrow> ELibrary_state \<Rightarrow> ELibrary_state" where
  "alert a st = st\<lparr>alerts := alerts st @ [a]\<rparr>"

definition onPress_Download :: "LibraryFile \<Rightarrow> download_env \<Rightarrow> ELibrary_state \<Rightarrow> ELibrary_state" where
  "onPress_Download file env st =
     (let fileName = fileName_of file;
          st1 = st\<lparr>downloadingFiles := insert (file_id file) (downloadingFiles st)\<rparr>;
          downloadDir = documentDirectory env @ ''downloads/'';
          failed = alert (''Error'', ''Failed to download file'');
          st2 =
            (case dirInfo env of
               Inl e \<Rightarrow> failed st1
             | Inr present \<Rightarrow>
                 (case (if present then None else makeDirectory env) of
                    Some e \<Rightarrow> failed st1
                  | None \<Rightarrow>
                      (let localUri = downloadDir @ fileName;
                           st3 = st1\<lparr>transfers := transfers st1 @ [(url file, localUri)]\<rparr>
                       in case downloadResult env of
                            Inl e \<Rightarrow> failed st3
                          | Inr status \<Rightarrow>
                              (if status = 200 then
                                 (let st4 = st3\<lparr>downloadedFiles := insert fileName (downloadedFiles st3),
                                               recordDownload_calls := recordDownload_calls st3 @
                                                 [(file_name file, file_type file, file_id file)]\<rparr>
                                  in case useStats_recordDownload (hook_user env) (file_name file)
                                            (file_type file) (Some (file_id file)) (insert_reply env)
                                            (statsService st4) of
                                       (Inl e, ss) \<Rightarrow> failed (st4\<lparr>statsService := ss\<rparr>)
                                     | (Inr u, ss) \<Rightarrow>
                                         alert (''Success'', ''File downloaded for offline access!'')
                                           (st4\<lparr>statsService := ss\<rparr>))
                               else failed st3))))
      in st2\<lparr>downloadingFiles := downloadingFiles st2 - {file_id file}\<rparr>)"

definition handleDownload :: "LibraryFile \<Rightarrow> download_env \<Rightarrow> ELibrary_state \<Rightarrow> ELibrary_state" where
  "handleDownload file env st =
     (let fileName = fileName_of file in
      if fileName \<in> downloadedFiles st
      then alert (''Already Downloaded'', ''This file is already available offline.'') st
      else
        (let st0 = alert (''Download'',
                     ''Download '' @ [CHR 0x22] @ file_name file @ [CHR 0x22] @ '' for offline access?'') st
         in case pressed env of
              Cancel \<Rightarrow> st0
            | Download \<Rightarrow> onPress_Download file env st0))"

text \<open>A download request whose transfer completes with the given status.\<close>

definition transfer_completes :: "download_env \<Rightarrow> int \<Rightarrow> bool" where
  "transfer_completes env status =
     (pressed env = Download \<and>
      (dirInfo env = Inr True \<or> (dirInfo env = Inr False \<and> makeDirectory env = None)) \<and>
      downloadResult env = Inr status)"

section \<open>Vocabulary of the properties\<close>

text \<open>A call that returns rather than throws.\<close>

definition returns :: "fault + 'a \<Rightarrow> bool" where
  "returns x = (case x of Inl e \<Rightarrow> False | Inr v \<Rightarrow> True)"

text \<open>
  A method that hands every failure of its mutation on to its caller: it throws the
  error of a reply that carries one, throws the fault of a rejection, and returns on a
  reply with no error.
\<close>

definition rethrows :: "(unit reply \<Rightarrow> fault + unit) \<Rightarrow> bool" where
  "rethrows f =
     ((\<forall>d e. f (Resolves d (Some e)) = Inl e) \<and> (\<forall>e. f (Rejects e) = Inl e) \<and>
      (\<forall>d. f (Resolves d None) = Inr ()))"

text \<open>The cached counters, and every value handed to a listener, are within the bounds.\<close>

definition cached_in_range :: "StatsService \<Rightarrow> bool" where
  "cached_in_range s = (case currentStats s of None \<Rightarrow> True | Some v \<Rightarrow> stats_in_range v)"

definition delivered_in_range :: "StatsService \<Rightarrow> bool" where
  "delivered_in_range s = list_all (\<lambda>d. stats_in_range (snd d)) (delivered s)"

definition stats_inv :: "StatsService \<Rightarrow> bool" where
  "stats_inv s = (cached_in_range s \<and> delivered_in_range s)"

text \<open>The result of \<open>register\<close> when the account awaits its confirmation.\<close>

definition confirmation_pending :: AuthResult where
  "confirmation_pending =
     \<lparr>auth_success = True, auth_error = None, needsEmailConfirmation = Some True,
      message = Some (''Registration successful! Please check your email and '' @
                      ''click the confirmation link to activate your account.'')\<rparr>"

section \<open>Concrete inputs\<close>

text \<open>
  The post of the spec's scenario, \<open>{title: "T", content: "C", type: "discussion",
  author_id: U}\<close>, between two other posts in a cache.
\<close>

definition post_T :: row where
  "post_T = [''id'' \<mapsto> JStr ''p1'', ''title'' \<mapsto> JStr ''T'', ''content'' \<mapsto> JStr ''C'',
             ''type'' \<mapsto> JStr ''discussion'', ''author_id'' \<mapsto> JStr ''U'']"

definition post_first :: row where
  "post_first = [''id'' \<mapsto> JStr ''p0'', ''title'' \<mapsto> JStr ''Welcome'', ''content'' \<mapsto> JStr ''Hello'',
                 ''type'' \<mapsto> JStr ''announcement'', ''author_id'' \<mapsto> JStr ''L'']"

definition post_last :: row where
  "post_last = [''id'' \<mapsto> JStr ''p2'', ''title'' \<mapsto> JStr ''Lost keys'', ''content'' \<mapsto> JStr ''Help'',
                ''type'' \<mapsto> JStr ''help'', ''author_id'' \<mapsto> JStr ''V'']"

text \<open>A row that is not in the cache, as an \<open>INSERT\<close> event carries it.\<close>

definition post_new :: row where
  "post_new = [''id'' \<mapsto> JStr ''p3'', ''title'' \<mapsto> JStr ''New'', ''content'' \<mapsto> JStr ''Fresh'',
               ''type'' \<mapsto> JStr ''event'', ''author_id'' \<mapsto> JStr ''W'']"

definition cache_of_three :: usePosts_state where
  "cache_of_three = \<lparr>posts = [post_first, post_T, post_last], loading = False, error = None\<rparr>"

text \<open>A library file, a second one of the same name, and a screen with nothing downloaded.\<close>

definition lecture_file :: LibraryFile where
  "lecture_file =
     \<lparr>file_id = ''f1'', file_name = ''Lecture 1.pdf'', file_size = 2048,
      file_type = ''application/pdf'', category = ''Notes'', url = ''https://cdn/f1.pdf'',
      created_at = ''2025-09-07T10:00:00Z'', uploader_id = ''L''\<rparr>"

definition lecture_file_again :: LibraryFile where
  "lecture_file_again = lecture_file\<lparr>file_id := ''f2'', url := ''https://cdn/f2.pdf''\<rparr>"

definition empty_library :: ELibrary_state where
  "empty_library =
     \<lparr>downloadedFiles = {}, downloadingFiles = {}, statsService = new_StatsService,
      alerts = [], transfers = [], recordDownload_calls = []\<rparr>"

definition env_200 :: download_env where
  "env_200 =
     \<lparr>documentDirectory = ''file:///data/'', pressed = Download, dirInfo = Inr False,
      makeDirectory = None, downloadResult = Inr 200, hook_user = Some ''u1'',
      insert_reply = Resolves None None\<rparr>"

definition env_404 :: download_env where
  "env_404 = env_200\<lparr>downloadResult := Inr 404\<rparr>"

text \<open>A singleton with one listener after a load for a profile that is ninety days old.\<close>

definition loaded_stats :: StatsService where
  "loaded_stats =
     stats_calls [Subscribe 1,
                  LoadStats ''u1'' (Num 0) 7776000000 (CountResolves (Some 3) None)
                    (CountResolves (Some 1) None)]
       new_StatsService"

definition unconfirmed_user :: User where
  "unconfirmed_user = \<lparr>user_id = ''u1'', email_confirmed_at = None\<rparr>"

definition signed_out :: auth_state where
  "signed_out = \<lparr>user = None, profile = None, session = None, auth_loading = False\<rparr>"

section \<open>The realtime merge of the posts cache\<close>

lemma spread_keeps_id:
  "post ''id'' = new ''id'' \<Longrightarrow> spread post new ''id'' = post ''id''"
  by (cases "new ''id''") (simp_all add: spread_def map_add_def)

lemma merged_entry_id: "merged_entry evs post ''id'' = post ''id''"
proof -
  have "\<And>p. p ''id'' = i \<Longrightarrow> foldl spread p (updates_for i evs) ''id'' = i" for i
  proof (induction evs)
    case Nil
    then show ?case by simp
  next
    case (Cons ev evs)
    then show ?case
      by (cases ev) (simp_all add: spread_keeps_id)
  qed
  then show ?thesis by (simp add: merged_entry_def)
qed

text \<open>
  The collection after any sequence of events: the entries that were cached and whose id
  met no \<open>DELETE\<close>, in their order, each merged with the \<open>UPDATE\<close> payloads for its id.
\<close>

lemma posts_after_changes:
  "posts (on_post_changes evs st) = map (merged_entry evs) (surviving evs (posts st))"
proof (induction evs arbitrary: st)
  case Nil
  show ?case by (simp add: merged_entry_def surviving_def)
next
  case (Cons ev evs)
  show ?case
  proof (cases ev)
    case (INSERT new)
    then show ?thesis
      by (simp add: Cons.IH refreshPosts_begin_def loadPosts_begin_def merged_entry_def
          surviving_def)
  next
    case (UPDATE new)
    let ?f = "\<lambda>post. if post ''id'' = new ''id'' then spread post new else post"
    have surv: "surviving evs (map ?f ps) = map ?f (surviving (ev # evs) ps)" for ps
      unfolding surviving_def UPDATE by (induction ps) (simp_all add: spread_keeps_id)
    have merge: "merged_entry evs (?f post) = merged_entry (ev # evs) post" for post
      unfolding merged_entry_def UPDATE by (simp add: spread_keeps_id)
    show ?thesis
      using UPDATE by (simp add: Cons.IH surv merge comp_def del: map_eq_conv)
  next
    case (DELETE old)
    have surv: "surviving evs (filter (\<lambda>post. post ''id'' \<noteq> old ''id'') ps) =
                surviving (ev # evs) ps" for ps
      unfolding surviving_def DELETE by (induction ps) auto
    have merge: "merged_entry evs post = merged_entry (ev # evs) post" for post
      unfolding merged_entry_def DELETE by simp
    show ?thesis
      using DELETE by (simp add: Cons.IH surv merge)
  qed
qed

lemma filter_id_distinct:
  "distinct (map (\<lambda>p. p ''id'') ps) \<Longrightarrow> p \<in> set ps \<Longrightarrow>
     filter (\<lambda>q. q ''id'' = p ''id'') ps = [p]"
proof (induction ps)
  case Nil
  then show ?case by simp
next
  case (Cons a ps)
  show ?case
  proof (cases "a = p")
    case True
    have "filter (\<lambda>q. q ''id'' = p ''id'') ps = []"
      using Cons.prems(1) True by (auto simp: filter_empty_conv image_iff)
    then show ?thesis using True by simp
  next
    case False
    then have "p \<in> set ps" using Cons.prems(2) by simp
    moreover have "a ''id'' \<noteq> p ''id''"
      using Cons.prems(1) \<open>p \<in> set ps\<close> by (auto simp: image_iff)
    ultimately show ?thesis using Cons by simp
  qed
qed

text \<open>
  An \<open>INSERT\<close> adds no entry: it starts a reload and leaves the collection as it
  is. What the handler does to the collection depends on the collection alone.
\<close>

lemma insert_starts_reload:
  "on_post_change (INSERT new) st = st\<lparr>loading := True, error := None\<rparr>"
  by (simp add: refreshPosts_begin_def loadPosts_begin_def)

lemma no_events_yet: "map (merged_entry []) (surviving [] ps) = ps"
  by (induction ps) (simp_all add: merged_entry_def surviving_def)

lemma posts_change_cong:
  "posts st = posts st' \<Longrightarrow> posts (on_post_change ev st) = posts (on_post_change ev st')"
  by (cases ev) (simp_all add: refreshPosts_begin_def loadPosts_begin_def)

lemma on_post_changes_append:
  "on_post_changes (xs @ ys) st = on_post_changes ys (on_post_changes xs st)"
  by (induction xs arbitrary: st) simp_all

lemma posts_one_more_change:
  assumes "posts st = map (merged_entry evs) (surviving evs base)"
  shows "posts (on_post_change ev st) = map (merged_entry (evs @ [ev])) (surviving (evs @ [ev]) base)"
proof -
  let ?st0 = "\<lparr>posts = base, loading = False, error = None\<rparr>"
  have "posts st = posts (on_post_changes evs ?st0)"
    using assms by (simp add: posts_after_changes)
  then have "posts (on_post_change ev st) = posts (on_post_change ev (on_post_changes evs ?st0))"
    by (rule posts_change_cong)
  also have "\<dots> = posts (on_post_changes (evs @ [ev]) ?st0)"
    by (simp add: on_post_changes_append)
  also have "\<dots> = map (merged_entry (evs @ [ev])) (surviving (evs @ [ev]) base)"
    by (simp add: posts_after_changes)
  finally show ?thesis .
qed

text \<open>
  Events and completions of reloads in any order: a successful reload replaces the
  collection by the rows fetched, a failed one leaves it, and the events that follow
  are merged into what the last successful reload put in place.
\<close>

lemma posts_after_steps:
  "posts st = map (merged_entry evs) (surviving evs base) \<Longrightarrow>
   posts (usePosts_steps ss st) =
     map (merged_entry (snd (replay ss (base, evs))))
       (surviving (snd (replay ss (base, evs))) (fst (replay ss (base, evs))))"
proof (induction ss arbitrary: st base evs)
  case Nil
  then show ?case by simp
next
  case (Cons s ss)
  show ?case
  proof (cases s)
    case (Change ev)
    have "posts (usePosts_step s st) =
          map (merged_entry (evs @ [ev])) (surviving (evs @ [ev]) base)"
      using Change posts_one_more_change [OF Cons.prems] by simp
    from Cons.IH [OF this] show ?thesis using Change by simp
  next
    case (Loaded result)
    show ?thesis
    proof (cases result)
      case (Inl e)
      have "posts (usePosts_step s st) = map (merged_entry evs) (surviving evs base)"
        using Loaded Inl Cons.prems by (simp add: loadPosts_end_def)
      from Cons.IH [OF this] show ?thesis using Loaded Inl by simp
    next
      case (Inr res)
      show ?thesis
      proof (cases "service_error res \<noteq> None")
        case True
        have "posts (usePosts_step s st) = map (merged_entry evs) (surviving evs base)"
          using Loaded Inr True Cons.prems by (simp add: loadPosts_end_def)
        from Cons.IH [OF this] show ?thesis using Loaded Inr True by simp
      next
        case False
        let ?d = "case data res of Some d \<Rightarrow> d | None \<Rightarrow> []"
        have "posts (usePosts_step s st) = map (merged_entry []) (surviving [] ?d)"
          using Loaded Inr False
          by (simp add: loadPosts_end_def no_events_yet)
        from Cons.IH [OF this] show ?thesis using Loaded Inr False by simp
      qed
    qed
  qed
qed

text \<open>
  C1, as the code has it. For every sequence of realtime
  \<open>INSERT\<close>/\<open>UPDATE\<close>/\<open>DELETE\<close> events that the subscription handler applies to a
  cache with pairwise distinct ids, the resulting collection is the cached entries whose
  id received no \<open>DELETE\<close>, at their relative positions, each shallow-merged with the
  \<open>UPDATE\<close> payloads for its id in arrival order: exactly one entry for each such id
  and none for an id that received a \<open>DELETE\<close>. An \<open>INSERT\<close> adds no entry for its
  id: it sets the loading flag, clears the error and starts a reload. With the
  completions of reloads among the events, the collection is what the last successful
  reload fetched (the cache at the start when none succeeded), merged in the same way
  with the events handled since; a failed reload changes nothing.
\<close>

theorem posts_subscription_merge:
  assumes "distinct (map (\<lambda>p. p ''id'') (posts st))"
  shows "posts (on_post_changes evs st) = map (merged_entry evs) (surviving evs (posts st)) \<and>
         (\<forall>p \<in> set (surviving evs (posts st)).
            filter (\<lambda>q. q ''id'' = p ''id'') (posts (on_post_changes evs st)) = [merged_entry evs p]) \<and>
         (\<forall>i. deleted_in i evs \<longrightarrow>
            filter (\<lambda>q. q ''id'' = i) (posts (on_post_changes evs st)) = []) \<and>
         on_post_change (INSERT new) st = st\<lparr>loading := True, error := None\<rparr> \<and>
         posts (usePosts_steps ss st) =
           map (merged_entry (snd (replay ss (posts st, []))))
             (surviving (snd (replay ss (posts st, []))) (fst (replay ss (posts st, []))))"
proof -
  let ?res = "posts (on_post_changes evs st)"
  have eq: "?res = map (merged_entry evs) (surviving evs (posts st))"
    by (rule posts_after_changes)
  have dist: "distinct (map (\<lambda>p. p ''id'') (surviving evs (posts st)))"
    using assms by (simp add: surviving_def distinct_map_filter)
  have one: "filter (\<lambda>q. q ''id'' = p ''id'') ?res = [merged_entry evs p]"
    if "p \<in> set (surviving evs (posts st))" for p
  proof -
    have "filter (\<lambda>q. q ''id'' = p ''id'') ?res =
          map (merged_entry evs) (filter (\<lambda>q. q ''id'' = p ''id'') (surviving evs (posts st)))"
      by (simp add: eq filter_map comp_def merged_entry_id)
    also have "\<dots> = [merged_entry evs p]"
      using filter_id_distinct [OF dist that] by simp
    finally show ?thesis .
  qed
  have none: "filter (\<lambda>q. q ''id'' = i) ?res = []" if "deleted_in i evs" for i
    using that by (auto simp: eq filter_empty_conv merged_entry_id surviving_def)
  have "posts st = map (merged_entry []) (surviving [] (posts st))"
    by (simp add: no_events_yet)
  then have steps: "posts (usePosts_steps ss st) =
           map (merged_entry (snd (replay ss (posts st, []))))
             (surviving (snd (replay ss (posts st, []))) (fst (replay ss (posts st, []))))"
    by (rule posts_after_steps)
  show ?thesis using eq one none insert_starts_reload steps by blast
qed

text \<open>
  The spec's scenario: an \<open>UPDATE\<close> with \<open>{title: "T2"}\<close> for the post at the second
  position, an \<open>INSERT\<close> of a new row and a \<open>DELETE\<close> of the third post leave the
  first post and \<open>{title: "T2", content: "C", ...}\<close>, still second. When the reload
  that the \<open>INSERT\<close> started succeeds, the fetched rows take the cache's place, and
  an \<open>UPDATE\<close> after it is merged into them.
\<close>

theorem posts_subscription_merge_witness:
  "distinct (map (\<lambda>p. p ''id'') (posts cache_of_three)) \<and>
   map (\<lambda>p. (p ''id'', p ''title'', p ''content''))
     (posts (on_post_changes
               [UPDATE [''id'' \<mapsto> JStr ''p1'', ''title'' \<mapsto> JStr ''T2''],
                INSERT post_new,
                DELETE [''id'' \<mapsto> JStr ''p2'']]
               cache_of_three))
     = [(Some (JStr ''p0''), Some (JStr ''Welcome''), Some (JStr ''Hello'')),
        (Some (JStr ''p1''), Some (JStr ''T2''), Some (JStr ''C''))] \<and>
   map (\<lambda>p. (p ''id'', p ''title''))
     (posts (usePosts_steps
               [Change (INSERT post_new),
                Loaded (Inr \<lparr>data = Some [post_new, post_T], service_error = None\<rparr>),
                Change (UPDATE [''id'' \<mapsto> JStr ''p3'', ''title'' \<mapsto> JStr ''Edited''])]
               cache_of_three))
     = [(Some (JStr ''p3''), Some (JStr ''Edited'')), (Some (JStr ''p1''), Some (JStr ''T''))]"
proof -
  let ?evs = "[UPDATE [''id'' \<mapsto> JStr ''p1'', ''title'' \<mapsto> JStr ''T2''],
               INSERT post_new,
               DELETE [''id'' \<mapsto> JStr ''p2'']]"
  let ?ss = "[Change (INSERT post_new),
              Loaded (Inr \<lparr>data = Some [post_new, post_T], service_error = None\<rparr>),
              Change (UPDATE [''id'' \<mapsto> JStr ''p3'', ''title'' \<mapsto> JStr ''Edited''])]"
  have d: "distinct (map (\<lambda>p. p ''id'') (posts cache_of_three))"
    by (simp add: cache_of_three_def post_first_def post_T_def post_last_def)
  note t = posts_subscription_merge [OF d, of ?evs post_new ?ss]
  have eq: "posts (on_post_changes ?evs cache_of_three)
          = map (merged_entry ?evs) (surviving ?evs (posts cache_of_three))"
    using t by blast
  have eq2: "posts (usePosts_steps ?ss cache_of_three) =
           map (merged_entry (snd (replay ?ss (posts cache_of_three, []))))
             (surviving (snd (replay ?ss (posts cache_of_three, [])))
                (fst (replay ?ss (posts cache_of_three, []))))"
    using t by blast
  have a: "map (\<lambda>p. (p ''id'', p ''title'', p ''content''))
          (map (merged_entry ?evs) (surviving ?evs (posts cache_of_three)))
        = [(Some (JStr ''p0''), Some (JStr ''Welcome''), Some (JStr ''Hello'')),
           (Some (JStr ''p1''), Some (JStr ''T2''), Some (JStr ''C''))]"
    by (simp add: cache_of_three_def post_first_def post_T_def post_last_def merged_entry_def
        surviving_def spread_def)
  have b: "map (\<lambda>p. (p ''id'', p ''title''))
          (map (merged_entry (snd (replay ?ss (posts cache_of_three, []))))
             (surviving (snd (replay ?ss (posts cache_of_three, [])))
                (fst (replay ?ss (posts cache_of_three, [])))))
        = [(Some (JStr ''p3''), Some (JStr ''Edited'')), (Some (JStr ''p1''), Some (JStr ''T''))]"
    by (simp add: post_new_def post_T_def merged_entry_def surviving_def spread_def)
  show ?thesis
    using d a b by (simp only: eq eq2 simp_thms)
qed

text \<open>
  C1 as stated fails. An \<open>INSERT\<close> of the row \<open>p3\<close> leaves the cache without an
  entry for \<open>p3\<close>, also when the reload it started has failed; and after a
  \<open>DELETE\<close> and a following \<open>INSERT\<close> of \<open>p1\<close>, whose last event is thus not
  a \<open>DELETE\<close>, the cache has no entry for \<open>p1\<close>.
\<close>

theorem insert_event_adds_no_entry:
  "post_ids (posts (on_post_changes [INSERT post_new] cache_of_three))
     = [Some (JStr ''p0''), Some (JStr ''p1''), Some (JStr ''p2'')] \<and>
   post_ids (posts (usePosts_steps
                      [Change (INSERT post_new),
                       Loaded (Inr \<lparr>data = None,
                                    service_error = Some (ErrorObj ''Network request failed'')\<rparr>)]
                      cache_of_three))
     = [Some (JStr ''p0''), Some (JStr ''p1''), Some (JStr ''p2'')] \<and>
   post_ids (posts (on_post_changes [DELETE [''id'' \<mapsto> JStr ''p1''], INSERT post_T]
                      cache_of_three))
     = [Some (JStr ''p0''), Some (JStr ''p2'')]"
  by (simp add: post_ids_def cache_of_three_def post_first_def post_T_def post_last_def
      refreshPosts_begin_def loadPosts_begin_def loadPosts_end_def)

text \<open>
  C9. Applying the same \<open>DELETE\<close> event twice gives the state that applying it once
  gives, and a \<open>DELETE\<close> for an id that no cached entry has changes nothing.
\<close>

theorem delete_event_idempotent:
  "on_post_change (DELETE old) (on_post_change (DELETE old) st) = on_post_change (DELETE old) st \<and>
   (old ''id'' \<notin> set (map (\<lambda>p. p ''id'') (posts st)) \<longrightarrow> on_post_change (DELETE old) st = st)"
proof -
  have "filter (\<lambda>post. post ''id'' \<noteq> old ''id'') (posts st) = posts st"
    if "old ''id'' \<notin> set (map (\<lambda>p. p ''id'') (posts st))"
  proof -
    have "\<forall>p \<in> set (posts st). p ''id'' \<noteq> old ''id''"
      using that by (metis image_eqI list.set_map)
    then show ?thesis by (simp add: filter_id_conv)
  qed
  then show ?thesis by simp
qed

theorem delete_event_idempotent_witness:
  "map (\<lambda>p. p ''id'')
     (posts (on_post_change (DELETE [''id'' \<mapsto> JStr ''p1''])
               (on_post_change (DELETE [''id'' \<mapsto> JStr ''p1'']) cache_of_three)))
     = [Some (JStr ''p0''), Some (JStr ''p2'')] \<and>
   on_post_change (DELETE [''id'' \<mapsto> JStr ''p9'']) cache_of_three = cache_of_three"
proof -
  have absent: "[''id'' \<mapsto> JStr ''p9''] ''id'' \<notin> set (map (\<lambda>p. p ''id'') (posts cache_of_three))"
    by (simp add: cache_of_three_def post_first_def post_T_def post_last_def)
  have once: "map (\<lambda>p. p ''id'')
     (posts (on_post_change (DELETE [''id'' \<mapsto> JStr ''p1'']) cache_of_three))
     = [Some (JStr ''p0''), Some (JStr ''p2'')]"
    by (simp add: cache_of_three_def post_first_def post_T_def post_last_def)
  show ?thesis
    using delete_event_idempotent [of "[''id'' \<mapsto> JStr ''p1'']" cache_of_three]
      delete_event_idempotent [of "[''id'' \<mapsto> JStr ''p9'']" cache_of_three] absent once
    by simp
qed

section \<open>Registration\<close>

text \<open>
  C6. When the backend answers a sign-up with a user that has no \<open>email_confirmed_at\<close>
  and with no session, \<open>register\<close> returns success with
  \<open>needsEmailConfirmation = true\<close> and an instruction message, and leaves the user
  and the session of the context as they were. No other reply gives that result: a
  failure has \<open>success = false\<close>, and a full success carries the flag \<open>false\<close>.
\<close>

theorem register_needs_confirmation:
  assumes "email_confirmed_at u = None"
  shows "fst (register email password profileData (SignUpResolves (Some u) None None) st)
           = confirmation_pending \<and>
         auth_success confirmation_pending \<and>
         needsEmailConfirmation confirmation_pending = Some True \<and>
         message confirmation_pending \<noteq> None \<and>
         session (snd (register email password profileData (SignUpResolves (Some u) None None) st))
           = session st \<and>
         user (snd (register email password profileData (SignUpResolves (Some u) None None) st))
           = user st \<and>
         (fst (register email' password' profileData' r st') = confirmation_pending \<longleftrightarrow>
            (\<exists>v. r = SignUpResolves (Some v) None None \<and> falsy (email_confirmed_at v)))"
proof -
  have a: "fst (register email password profileData (SignUpResolves (Some u) None None) st)
           = confirmation_pending"
    using assms by (simp add: register_def register_end_def register_begin_def falsy_def
        confirmation_pending_def)
  have b: "auth_success confirmation_pending \<and>
         needsEmailConfirmation confirmation_pending = Some True \<and>
         message confirmation_pending \<noteq> None"
    by (simp add: confirmation_pending_def)
  have c: "session (snd (register email password profileData (SignUpResolves (Some u) None None) st))
           = session st \<and>
         user (snd (register email password profileData (SignUpResolves (Some u) None None) st))
           = user st"
    by (simp add: register_def register_end_def register_begin_def)
  have d: "fst (register email' password' profileData' r st') = confirmation_pending \<longleftrightarrow>
            (\<exists>v. r = SignUpResolves (Some v) None None \<and> falsy (email_confirmed_at v))"
    by (auto simp: register_def register_end_def register_begin_def confirmation_pending_def
        split: signUp_reply.splits option.splits if_splits)
  show ?thesis using a b c d by blast
qed

text \<open>
  The spec's scenario: email \<open>a@x.com\<close>, password \<open>secret1\<close>, a student named Ada.
  A confirmed user with a session gets the other success.
\<close>

theorem register_needs_confirmation_witness:
  "email_confirmed_at unconfirmed_user = None \<and>
   fst (register ''a@x.com'' ''secret1''
          [''name'' \<mapsto> JStr ''Ada'', ''user_type'' \<mapsto> JStr ''student'']
          (SignUpResolves (Some unconfirmed_user) None None) signed_out)
     = confirmation_pending \<and>
   \<not> isAuthenticated
       (snd (register ''a@x.com'' ''secret1''
               [''name'' \<mapsto> JStr ''Ada'', ''user_type'' \<mapsto> JStr ''student'']
               (SignUpResolves (Some unconfirmed_user) None None) signed_out)) \<and>
   fst (register ''a@x.com'' ''secret1'' Map.empty
          (SignUpResolves (Some (unconfirmed_user\<lparr>email_confirmed_at := Some ''2025-09-07''\<rparr>))
             (Some \<lparr>session_user = unconfirmed_user\<rparr>) None) signed_out)
     \<noteq> confirmation_pending"
proof -
  have h: "email_confirmed_at unconfirmed_user = None"
    by (simp add: unconfirmed_user_def)
  note t = register_needs_confirmation [OF h, of "''a@x.com''" "''secret1''"
      "[''name'' \<mapsto> JStr ''Ada'', ''user_type'' \<mapsto> JStr ''student'']" signed_out
      "''a@x.com''" "''secret1''" Map.empty
      "SignUpResolves (Some (unconfirmed_user\<lparr>email_confirmed_at := Some ''2025-09-07''\<rparr>))
             (Some \<lparr>session_user = unconfirmed_user\<rparr>) None" signed_out]
  have "session signed_out = None" by (simp add: signed_out_def)
  then show ?thesis
    using h t by (simp add: isAuthenticated_def)
qed

section \<open>Downloads of the library screen\<close>

text \<open>
  C8. Two files with the same display name and different ids have different local
  filename keys, and the key is a function of the id and the name alone.
\<close>

theorem fileName_collision_free:
  "(file_id f1 \<noteq> file_id f2 \<and> file_name f1 = file_name f2 \<longrightarrow> fileName_of f1 \<noteq> fileName_of f2) \<and>
   (file_id f1 = file_id f2 \<and> file_name f1 = file_name f2 \<longrightarrow> fileName_of f1 = fileName_of f2)"
  by (simp add: fileName_of_def)

theorem fileName_collision_free_witness:
  "file_id lecture_file \<noteq> file_id lecture_file_again \<and>
   file_name lecture_file = file_name lecture_file_again \<and>
   fileName_of lecture_file = ''f1_Lecture_1.pdf'' \<and>
   fileName_of lecture_file \<noteq> fileName_of lecture_file_again"
proof -
  have a: "file_id lecture_file \<noteq> file_id lecture_file_again"
    by (simp add: lecture_file_def lecture_file_again_def)
  have b: "file_name lecture_file = file_name lecture_file_again"
    by (simp add: lecture_file_def lecture_file_again_def)
  have c: "fileName_of lecture_file = ''f1_Lecture_1.pdf''"
    by (simp add: lecture_file_def fileName_of_def sanitized_def kept_def)
  from fileName_collision_free [of lecture_file lecture_file_again] a b
  have "fileName_of lecture_file \<noteq> fileName_of lecture_file_again" by blast
  with a b c show ?thesis by blast
qed

lemma handleDownload_done:
  "fileName_of f \<in> downloadedFiles st \<Longrightarrow>
   handleDownload f env st =
     alert (''Already Downloaded'', ''This file is already available offline.'') st"
  by (simp add: handleDownload_def)

lemma handleDownload_200:
  assumes "fileName_of f \<notin> downloadedFiles st" and "transfer_completes env 200"
  shows "downloadedFiles (handleDownload f env st) = insert (fileName_of f) (downloadedFiles st) \<and>
         transfers (handleDownload f env st) =
           transfers st @ [(url f, documentDirectory env @ ''downloads/'' @ fileName_of f)] \<and>
         recordDownload_calls (handleDownload f env st) =
           recordDownload_calls st @ [(file_name f, file_type f, file_id f)]"
  using assms
  by (auto simp: handleDownload_def onPress_Download_def transfer_completes_def alert_def Let_def
      split: prod.splits sum.splits)

lemma handleDownload_not_200:
  assumes "downloadResult env \<noteq> Inr 200"
  shows "downloadedFiles (handleDownload f env st) = downloadedFiles st \<and>
         recordDownload_calls (handleDownload f env st) = recordDownload_calls st \<and>
         statsService (handleDownload f env st) = statsService st"
  using assms
  by (auto simp: handleDownload_def onPress_Download_def alert_def Let_def
      split: prod.splits sum.splits button.splits option.splits)

text \<open>
  C3. When a first \<open>handleDownload\<close> of a file not yet downloaded gets its transfer
  through with status 200, the key \<open>{id}_{sanitized name}\<close> is in the downloaded-set,
  and a second \<open>handleDownload\<close> of the file, whatever it meets, only shows the
  "Already Downloaded" alert: after both calls there has been exactly one transfer, to
  the path of that key, and one download recorded.
\<close>

theorem download_twice_already_downloaded:
  assumes "fileName_of f \<notin> downloadedFiles st" and "transfer_completes env 200"
  shows "fileName_of f \<in> downloadedFiles (handleDownload f env st) \<and>
         handleDownload f env' (handleDownload f env st) =
           alert (''Already Downloaded'', ''This file is already available offline.'')
             (handleDownload f env st) \<and>
         downloadedFiles (handleDownload f env' (handleDownload f env st)) =
           insert (fileName_of f) (downloadedFiles st) \<and>
         transfers (handleDownload f env' (handleDownload f env st)) =
           transfers st @ [(url f, documentDirectory env @ ''downloads/'' @ fileName_of f)] \<and>
         recordDownload_calls (handleDownload f env' (handleDownload f env st)) =
           recordDownload_calls st @ [(file_name f, file_type f, file_id f)]"
proof -
  let ?st1 = "handleDownload f env st"
  have in1: "fileName_of f \<in> downloadedFiles ?st1"
    using handleDownload_200 [OF assms] by simp
  have second: "handleDownload f env' ?st1 =
      alert (''Already Downloaded'', ''This file is already available offline.'') ?st1"
    using in1 by (rule handleDownload_done)
  show ?thesis
    using in1 second handleDownload_200 [OF assms] by (simp add: alert_def)
qed

lemma fileName_lecture: "fileName_of lecture_file = ''f1_Lecture_1.pdf''"
  by (simp add: lecture_file_def fileName_of_def sanitized_def kept_def)

theorem download_twice_already_downloaded_witness:
  "fileName_of lecture_file \<notin> downloadedFiles empty_library \<and>
   transfer_completes env_200 200 \<and>
   downloadedFiles (handleDownload lecture_file env_200 (handleDownload lecture_file env_200 empty_library))
     = {''f1_Lecture_1.pdf''} \<and>
   transfers (handleDownload lecture_file env_200 (handleDownload lecture_file env_200 empty_library))
     = [(''https://cdn/f1.pdf'', ''file:///data/downloads/f1_Lecture_1.pdf'')] \<and>
   last (alerts (handleDownload lecture_file env_200 (handleDownload lecture_file env_200 empty_library)))
     = (''Already Downloaded'', ''This file is already available offline.'')"
proof -
  have a: "fileName_of lecture_file \<notin> downloadedFiles empty_library"
    by (simp add: empty_library_def)
  have b: "transfer_completes env_200 200"
    by (simp add: transfer_completes_def env_200_def)
  note t = download_twice_already_downloaded [OF a b, of env_200]
  let ?st2 = "handleDownload lecture_file env_200 (handleDownload lecture_file env_200 empty_library)"
  have "downloadedFiles ?st2 = insert (fileName_of lecture_file) (downloadedFiles empty_library)"
    using t by blast
  then have d: "downloadedFiles ?st2 = {''f1_Lecture_1.pdf''}"
    by (simp add: fileName_lecture empty_library_def)
  have "transfers ?st2 = transfers empty_library @
          [(url lecture_file, documentDirectory env_200 @ ''downloads/'' @ fileName_of lecture_file)]"
    using t by blast
  moreover have "url lecture_file = ''https://cdn/f1.pdf''"
    by (simp add: lecture_file_def)
  moreover have "documentDirectory env_200 = ''file:///data/''"
    by (simp add: env_200_def)
  ultimately have tr: "transfers ?st2 =
      [(''https://cdn/f1.pdf'', ''file:///data/downloads/f1_Lecture_1.pdf'')]"
    by (simp add: fileName_lecture empty_library_def)
  have "?st2 = alert (''Already Downloaded'', ''This file is already available offline.'')
                 (handleDownload lecture_file env_200 empty_library)"
    using t by blast
  then have al: "last (alerts ?st2) = (''Already Downloaded'', ''This file is already available offline.'')"
    by (simp add: alert_def)
  show ?thesis
    using a b d tr al by blast
qed

text \<open>
  C4. A download whose transfer completes with a status other than 200 ends with the
  alert "Failed to download file", adds no key to the downloaded-set, makes no call of
  \<open>recordDownload\<close> and leaves the statistics service untouched. Whenever a call of
  \<open>handleDownload\<close> changes the downloaded-set or records a download, its transfer
  completed with status 200.
\<close>

theorem failed_transfer_not_registered:
  "(transfer_completes env status \<and> status \<noteq> 200 \<and> fileName_of f \<notin> downloadedFiles st \<longrightarrow>
      last (alerts (handleDownload f env st)) = (''Error'', ''Failed to download file'') \<and>
      downloadedFiles (handleDownload f env st) = downloadedFiles st \<and>
      recordDownload_calls (handleDownload f env st) = recordDownload_calls st \<and>
      statsService (handleDownload f env st) = statsService st) \<and>
   (downloadedFiles (handleDownload f env st) \<noteq> downloadedFiles st \<or>
    recordDownload_calls (handleDownload f env st) \<noteq> recordDownload_calls st
      \<longrightarrow> downloadResult env = Inr 200)"
proof -
  have a: "last (alerts (handleDownload f env st)) = (''Error'', ''Failed to download file'')"
    if "transfer_completes env status" "status \<noteq> 200" "fileName_of f \<notin> downloadedFiles st"
    using that
    by (auto simp: handleDownload_def onPress_Download_def transfer_completes_def alert_def Let_def)
  have b: "downloadResult env \<noteq> Inr 200" if "transfer_completes env status" "status \<noteq> 200"
    using that by (auto simp: transfer_completes_def)
  show ?thesis
    using a b handleDownload_not_200 [of env f st] by blast
qed

theorem failed_transfer_not_registered_witness:
  "transfer_completes env_404 404 \<and>
   fileName_of lecture_file \<notin> downloadedFiles empty_library \<and>
   last (alerts (handleDownload lecture_file env_404 empty_library))
     = (''Error'', ''Failed to download file'') \<and>
   downloadedFiles (handleDownload lecture_file env_404 empty_library) = {} \<and>
   recordDownload_calls (handleDownload lecture_file env_404 empty_library) = [] \<and>
   statsService (handleDownload lecture_file env_404 empty_library) = new_StatsService \<and>
   downloadedFiles (handleDownload lecture_file env_200 empty_library) \<noteq> {} \<and>
   downloadResult env_200 = Inr 200"
proof -
  have a: "transfer_completes env_404 404"
    by (simp add: transfer_completes_def env_404_def env_200_def)
  have b: "fileName_of lecture_file \<notin> downloadedFiles empty_library"
    by (simp add: empty_library_def)
  have c: "downloadedFiles (handleDownload lecture_file env_200 empty_library) \<noteq> {}"
    using handleDownload_200 [OF b, of env_200]
    by (simp add: transfer_completes_def env_200_def)
  have e: "downloadedFiles empty_library = {}" "recordDownload_calls empty_library = []"
    "statsService empty_library = new_StatsService"
    by (simp_all add: empty_library_def)
  show ?thesis
    using a b c
      failed_transfer_not_registered [of env_404 404 lecture_file empty_library]
      failed_transfer_not_registered [of env_200 200 lecture_file empty_library]
    by (simp add: e)
qed

section \<open>Error propagation of the services\<close>

lemma returns_try_catch:
  "(\<And>e. returns (h e)) \<Longrightarrow> returns (try_catch body h)"
  by (cases body) (simp_all add: try_catch_def returns_def)

lemma returns_Inr: "returns (Inr v)"
  by (simp add: returns_def)

lemma posts_service_returns:
  "returns (getAllPosts r) \<and> returns (getPostsByType t r) \<and> returns (getUserPosts uid r) \<and>
   returns (createPost post r1) \<and> returns (updatePost pid updates uid r1) \<and>
   returns (deletePost pid uid r0) \<and> returns (searchPosts query ra rb rc rd) \<and>
   returns (getPostStats r)"
  by (simp add: getAllPosts_def getPostsByType_def getUserPosts_def createPost_def
      updatePost_def deletePost_def searchPosts_def getPostStats_def returns_try_catch
      returns_Inr)

lemma insert_or_throw_cases:
  "insert_or_throw r =
     (case r of Rejects e \<Rightarrow> Inl e | Resolves d (Some e) \<Rightarrow> Inl e | Resolves d None \<Rightarrow> Inr ())"
  by (simp add: insert_or_throw_def try_catch_def await_def split: reply.splits option.splits)

lemma rethrows_insert_or_throw: "rethrows insert_or_throw"
  by (simp add: rethrows_def insert_or_throw_cases)

lemma record_outcomes:
  "fst (recordDownload uid fileName fileType fileId rr s) = insert_or_throw rr"
  "fst (recordEventAttendance uid eventId eventName rr s) = insert_or_throw rr"
  "fst (removeEventAttendance uid eventId rr s) = insert_or_throw rr"
  by (simp_all add: recordDownload_def recordEventAttendance_def removeEventAttendance_def
      split: sum.splits)

lemma loadStats_rejected:
  "fst (loadStats uid createdAt now (CountRejects e) r2 s) = Inl e \<and>
   fst (loadStats uid createdAt now (CountResolves c1 e1) (CountRejects e) s) = Inl e"
  by (simp add: loadStats_def Let_def)

text \<open>
  C7, as the code has it. Every method of the posts service returns its
  \<open>{ data, error }\<close> or \<open>{ success, error }\<close> for every reply of the backend and
  for every rejected call. The statistics service does otherwise: its three record
  operations throw the error of a failed mutation on to their caller, and \<open>loadStats\<close>
  throws when one of its queries rejects.
\<close>

theorem service_error_propagation:
  "returns (getAllPosts r) \<and> returns (getPostsByType t r) \<and> returns (getUserPosts uid r) \<and>
   returns (createPost post r1) \<and> returns (updatePost pid updates uid r1) \<and>
   returns (deletePost pid uid r0) \<and> returns (searchPosts query ra rb rc rd) \<and>
   returns (getPostStats r) \<and>
   rethrows (\<lambda>rr. fst (recordDownload uid fileName fileType fileId rr s)) \<and>
   rethrows (\<lambda>rr. fst (recordEventAttendance uid eventId eventName rr s)) \<and>
   rethrows (\<lambda>rr. fst (removeEventAttendance uid eventId rr s)) \<and>
   fst (loadStats uid createdAt now (CountRejects e) q2 s) = Inl e \<and>
   fst (loadStats uid createdAt now (CountResolves c1 e1) (CountRejects e) s) = Inl e"
  using posts_service_returns [of r t uid post r1 pid updates r0 query ra rb rc rd]
    rethrows_insert_or_throw loadStats_rejected [of uid createdAt now e q2 s c1 e1]
  by (simp add: record_outcomes)

text \<open>
  The posts service turns a rejected call and an error reply into results; the record
  operation of the statistics service throws on the same two.
\<close>

theorem service_error_propagation_witness:
  "getAllPosts (Rejects (ErrorObj ''Network request failed''))
     = Inr \<lparr>data = None, service_error = Some (ErrorObj ''Network request failed'')\<rparr> \<and>
   deletePost ''p1'' ''U'' (Resolves None (Some (ErrorObj ''permission denied'')))
     = Inr \<lparr>success = False, delete_error = Some (ErrorObj ''permission denied'')\<rparr> \<and>
   returns (getPostStats (Resolves None None)) \<and>
   fst (recordEventAttendance ''u1'' ''e1'' ''Orientation''
          (Rejects (ErrorObj ''Network request failed'')) new_StatsService)
     = Inl (ErrorObj ''Network request failed'') \<and>
   fst (removeEventAttendance ''u1'' ''e1'' (Resolves None None) new_StatsService) = Inr ()"
proof -
  note t = service_error_propagation [of "Resolves None None" "''help''" "''u1''" Map.empty
      "Resolves None None" "''p1''" Map.empty "Resolves None None" "''''" "Resolves None None"
      "Resolves None None" "Resolves None None" "Resolves None None" "''a.pdf''" "''pdf''" None
      new_StatsService "''e1''" "''Orientation''" "Num 0" 0 Thrown "CountResolves None None"
      None None]
  have a: "getAllPosts (Rejects (ErrorObj ''Network request failed''))
     = Inr \<lparr>data = None, service_error = Some (ErrorObj ''Network request failed'')\<rparr>"
    by (simp add: getAllPosts_def try_catch_def await_def)
  have b: "deletePost ''p1'' ''U'' (Resolves None (Some (ErrorObj ''permission denied'')))
     = Inr \<lparr>success = False, delete_error = Some (ErrorObj ''permission denied'')\<rparr>"
    by (simp add: deletePost_def try_catch_def await_def)
  have c: "returns (getPostStats (Resolves None None))"
    using t by blast
  have "rethrows (\<lambda>rr. fst (recordEventAttendance ''u1'' ''e1'' ''Orientation'' rr new_StatsService))"
    using t by blast
  then have d: "fst (recordEventAttendance ''u1'' ''e1'' ''Orientation''
          (Rejects (ErrorObj ''Network request failed'')) new_StatsService)
     = Inl (ErrorObj ''Network request failed'')"
    by (simp add: rethrows_def)
  have "rethrows (\<lambda>rr. fst (removeEventAttendance ''u1'' ''e1'' rr new_StatsService))"
    using t by blast
  then have e: "fst (removeEventAttendance ''u1'' ''e1'' (Resolves None None) new_StatsService) = Inr ()"
    by (simp add: rethrows_def)
  show ?thesis using a b c d e by blast
qed

text \<open>
  C7 as the spec states it fails: \<open>recordDownload\<close> throws the error of the insert.
\<close>

theorem recordDownload_throws:
  "\<not> returns (fst (recordDownload ''u1'' ''notes.pdf'' ''application/pdf'' (Some ''f1'')
                     (Resolves None (Some (ErrorObj ''permission denied''))) new_StatsService))"
  by (simp add: recordDownload_def insert_or_throw_def try_catch_def await_def returns_def)

section \<open>Bounds of the statistics\<close>

lemma notify_in_range:
  "stats_in_range v \<Longrightarrow> delivered_in_range s \<Longrightarrow>
     cached_in_range (notify v s) \<and> delivered_in_range (notify v s)"
  by (auto simp: notify_def cached_in_range_def delivered_in_range_def list_all_iff)

lemma ge_num_plus: "ge_num x (Num 0) \<Longrightarrow> ge_num (plus_num x (Num 1)) (Num 0)"
  by (cases x) simp_all

lemma ge_num_max: "ge_num x (Num 0) \<Longrightarrow> ge_num (Math_max (Num 0) (minus_num x (Num 1))) (Num 0)"
  by (cases x) simp_all

lemma months_in_range:
  "createdAt \<noteq> NaN \<Longrightarrow>
     ge_num (Math_max (Num 1) (Math_floor_div (minus_num (Num now) createdAt) k)) (Num 1)"
  by (cases createdAt) simp_all

lemma record_in_range:
  assumes "stats_inv s" and "\<And>cur. stats_in_range cur \<Longrightarrow> stats_in_range (g cur)"
  shows "stats_inv (case currentStats s of Some cur \<Rightarrow> notify (g cur) s | None \<Rightarrow> s)"
proof (cases "currentStats s")
  case None
  then show ?thesis using assms(1) by simp
next
  case (Some cur)
  then have "stats_in_range (g cur)"
    using assms by (simp add: stats_inv_def cached_in_range_def)
  then show ?thesis
    using Some assms(1) notify_in_range [of "g cur" s] by (simp add: stats_inv_def)
qed

lemma do_call_inv:
  assumes "stats_inv s" and "valid_date_call c"
  shows "stats_inv (do_call c s)"
proof (cases c)
  case (LoadStats uid createdAt now r1 r2)
  have d: "delivered_in_range (s\<lparr>userId := Some uid\<rparr>)"
    using assms(1) by (simp add: stats_inv_def delivered_in_range_def)
  have c: "cached_in_range (s\<lparr>userId := Some uid\<rparr>)"
    using assms(1) by (simp add: stats_inv_def cached_in_range_def)
  have v: "createdAt \<noteq> NaN" using assms(2) LoadStats by simp
  show ?thesis
    using LoadStats c d notify_in_range months_in_range [OF v]
    by (auto simp: loadStats_def Let_def stats_inv_def stats_in_range_def
        split: count_reply.splits option.splits)
next
  case (RecordDownload uid fileName fileType fileId r)
  have "stats_in_range (cur\<lparr>filesDownloaded := plus_num (filesDownloaded cur) (Num 1)\<rparr>)"
    if "stats_in_range cur" for cur
    using that by (simp add: stats_in_range_def ge_num_plus)
  then show ?thesis
    using RecordDownload assms(1) record_in_range [OF assms(1)]
    by (simp add: recordDownload_def split: sum.splits)
next
  case (RecordEventAttendance uid eventId eventName r)
  have "stats_in_range (cur\<lparr>eventsAttended := plus_num (eventsAttended cur) (Num 1)\<rparr>)"
    if "stats_in_range cur" for cur
    using that by (simp add: stats_in_range_def ge_num_plus)
  then show ?thesis
    using RecordEventAttendance assms(1) record_in_range [OF assms(1)]
    by (simp add: recordEventAttendance_def split: sum.splits)
next
  case (RemoveEventAttendance uid eventId r)
  have "stats_in_range
          (cur\<lparr>eventsAttended := Math_max (Num 0) (minus_num (eventsAttended cur) (Num 1))\<rparr>)"
    if "stats_in_range cur" for cur
    using that by (simp add: stats_in_range_def ge_num_max)
  then show ?thesis
    using RemoveEventAttendance assms(1) record_in_range [OF assms(1)]
    by (simp add: removeEventAttendance_def split: sum.splits)
next
  case (Subscribe callback)
  then show ?thesis using assms(1)
    by (simp add: subscribe_def stats_inv_def cached_in_range_def delivered_in_range_def)
next
  case (Unsubscribe callback)
  then show ?thesis using assms(1)
    by (simp add: unsubscribe_def stats_inv_def cached_in_range_def delivered_in_range_def)
next
  case Clear
  then show ?thesis using assms(1)
    by (simp add: clear_def stats_inv_def cached_in_range_def delivered_in_range_def)
qed

lemma stats_calls_inv:
  "stats_inv s \<Longrightarrow> list_all valid_date_call calls \<Longrightarrow> stats_inv (stats_calls calls s)"
  by (induction calls arbitrary: s) (simp_all add: do_call_inv)

text \<open>
  C10, as the code has it. After every sequence of calls on the singleton in which each
  \<open>loadStats\<close> is given a creation time that parses as a date, the cached counters
  and every value handed to a listener have \<open>filesDownloaded \<ge> 0\<close>,
  \<open>eventsAttended \<ge> 0\<close> and \<open>monthsActive \<ge> 1\<close>.
\<close>

theorem stats_stay_in_range:
  assumes "list_all valid_date_call calls"
  shows "cached_in_range (stats_calls calls new_StatsService) \<and>
         delivered_in_range (stats_calls calls new_StatsService)"
proof -
  have "stats_inv new_StatsService"
    by (simp add: stats_inv_def cached_in_range_def delivered_in_range_def new_StatsService_def)
  from stats_calls_inv [OF this assms] show ?thesis by (simp add: stats_inv_def)
qed

text \<open>
  A profile created at the moment of the load has one month; an attendance removed twice
  after one was recorded leaves zero.
\<close>

theorem stats_stay_in_range_witness:
  "list_all valid_date_call
     [Subscribe 1,
      LoadStats ''u1'' (Num 1700000000000) 1700000000000 (CountResolves None None)
        (CountResolves (Some 1) None),
      RemoveEventAttendance ''u1'' ''e1'' (Resolves None None),
      RemoveEventAttendance ''u1'' ''e1'' (Resolves None None)] \<and>
   cached_in_range
     (stats_calls
        [Subscribe 1,
         LoadStats ''u1'' (Num 1700000000000) 1700000000000 (CountResolves None None)
           (CountResolves (Some 1) None),
         RemoveEventAttendance ''u1'' ''e1'' (Resolves None None),
         RemoveEventAttendance ''u1'' ''e1'' (Resolves None None)]
        new_StatsService) \<and>
   currentStats
     (stats_calls
        [Subscribe 1,
         LoadStats ''u1'' (Num 1700000000000) 1700000000000 (CountResolves None None)
           (CountResolves (Some 1) None),
         RemoveEventAttendance ''u1'' ''e1'' (Resolves None None),
         RemoveEventAttendance ''u1'' ''e1'' (Resolves None None)]
        new_StatsService)
     = Some \<lparr>filesDownloaded = Num 0, eventsAttended = Num 0, monthsActive = Num 1\<rparr>"
proof -
  let ?calls = "[Subscribe 1,
      LoadStats ''u1'' (Num 1700000000000) 1700000000000 (CountResolves None None)
        (CountResolves (Some 1) None),
      RemoveEventAttendance ''u1'' ''e1'' (Resolves None None),
      RemoveEventAttendance ''u1'' ''e1'' (Resolves None None)]"
  have h: "list_all valid_date_call ?calls" by simp
  have c: "currentStats (stats_calls ?calls new_StatsService)
     = Some \<lparr>filesDownloaded = Num 0, eventsAttended = Num 0, monthsActive = Num 1\<rparr>"
    by (simp add: new_StatsService_def subscribe_def loadStats_def removeEventAttendance_def
        insert_or_throw_def try_catch_def await_def notify_def Let_def)
  show ?thesis
    using h c stats_stay_in_range [OF h] by blast
qed

text \<open>
  C10 as stated fails: a creation time that does not parse makes \<open>monthsActive\<close>
  \<open>NaN\<close>, and \<open>NaN \<ge> 1\<close> is false.
\<close>

theorem invalid_date_months_not_in_range:
  "\<not> cached_in_range
       (stats_calls [LoadStats ''u1'' NaN 1700000000000 (CountResolves (Some 3) None)
                       (CountResolves (Some 1) None)] new_StatsService)"
  by (simp add: loadStats_def notify_def cached_in_range_def stats_in_range_def
      new_StatsService_def Let_def)

section \<open>The reset of the statistics singleton\<close>

lemma do_call_no_delivery:
  assumes "callback \<notin> set (listeners s)" and "\<not> is_Subscribe callback c"
  shows "callback \<notin> set (listeners (do_call c s)) \<and>
         delivered_to callback (do_call c s) = delivered_to callback s"
proof -
  have n: "callback \<notin> set (listeners (notify v t)) \<and>
           delivered_to callback (notify v t) = delivered_to callback t"
    if "callback \<notin> set (listeners t)" for v t
    using that by (auto simp: notify_def delivered_to_def filter_empty_conv)
  show ?thesis
  proof (cases c)
    case (LoadStats uid createdAt now r1 r2)
    have "callback \<notin> set (listeners (s\<lparr>userId := Some uid\<rparr>))" using assms(1) by simp
    from n [OF this] show ?thesis
      using LoadStats assms(1)
      by (auto simp: loadStats_def Let_def delivered_to_def split: count_reply.splits)
  next
    case (RecordDownload uid fileName fileType fileId r)
    then show ?thesis using assms(1) n [OF assms(1)]
      by (auto simp: recordDownload_def split: sum.splits option.splits)
  next
    case (RecordEventAttendance uid eventId eventName r)
    then show ?thesis using assms(1) n [OF assms(1)]
      by (auto simp: recordEventAttendance_def split: sum.splits option.splits)
  next
    case (RemoveEventAttendance uid eventId r)
    then show ?thesis using assms(1) n [OF assms(1)]
      by (auto simp: removeEventAttendance_def split: sum.splits option.splits)
  next
    case (Subscribe c')
    then show ?thesis using assms by (simp add: subscribe_def delivered_to_def)
  next
    case (Unsubscribe c')
    then show ?thesis using assms(1) by (simp add: unsubscribe_def delivered_to_def)
  next
    case Clear
    then show ?thesis by (simp add: clear_def delivered_to_def)
  qed
qed

lemma stats_calls_no_delivery:
  "callback \<notin> set (listeners s) \<Longrightarrow> \<not> list_ex (is_Subscribe callback) calls \<Longrightarrow>
     delivered_to callback (stats_calls calls s) = delivered_to callback s"
proof (induction calls arbitrary: s)
  case Nil
  then show ?case by simp
next
  case (Cons c calls)
  then show ?case using do_call_no_delivery [of callback s c] by simp
qed

lemma loaded_stats_value:
  "loaded_stats =
     \<lparr>listeners = [1],
      currentStats = Some \<lparr>filesDownloaded = Num 3, eventsAttended = Num 1, monthsActive = Num 3\<rparr>,
      userId = Some ''u1'',
      delivered = [(1, \<lparr>filesDownloaded = Num 3, eventsAttended = Num 1, monthsActive = Num 3\<rparr>)]\<rparr>"
  by (simp add: loaded_stats_def new_StatsService_def subscribe_def loadStats_def notify_def
      Let_def)

text \<open>
  C5. After \<open>clear\<close>, the operation the service has for logout, reading the current
  stats returns \<open>null\<close>, the set of listeners is empty, and through every sequence
  of later calls (loads, record operations, subscriptions of other listeners) a listener
  that was registered before and does not subscribe again is handed nothing more.
\<close>

theorem clear_resets:
  "getCurrentStats (clear s) = None \<and> listeners (clear s) = [] \<and>
   (\<not> list_ex (is_Subscribe callback) calls \<longrightarrow>
      delivered_to callback (stats_calls calls (clear s)) = delivered_to callback s)"
proof -
  have "callback \<notin> set (listeners (clear s))" by (simp add: clear_def)
  from stats_calls_no_delivery [OF this]
  show ?thesis by (simp add: getCurrentStats_def clear_def delivered_to_def)
qed

text \<open>
  A singleton with counters and the listener 1 is cleared; a second listener then
  subscribes, a load and a recorded download follow. The second listener is handed both
  values, the first none of them.
\<close>

theorem clear_resets_witness:
  "listeners loaded_stats = [1] \<and>
   getCurrentStats (clear loaded_stats) = None \<and>
   listeners (clear loaded_stats) = [] \<and>
   \<not> list_ex (is_Subscribe 1)
       [Subscribe 2,
        LoadStats ''u2'' (Num 0) 2592000000 (CountResolves (Some 5) None) (CountResolves None None),
        RecordDownload ''u2'' ''a.pdf'' ''application/pdf'' (Some ''f1'') (Resolves None None)] \<and>
   delivered_to 1
     (stats_calls
        [Subscribe 2,
         LoadStats ''u2'' (Num 0) 2592000000 (CountResolves (Some 5) None) (CountResolves None None),
         RecordDownload ''u2'' ''a.pdf'' ''application/pdf'' (Some ''f1'') (Resolves None None)]
        (clear loaded_stats))
     = [\<lparr>filesDownloaded = Num 3, eventsAttended = Num 1, monthsActive = Num 3\<rparr>] \<and>
   delivered_to 2
     (stats_calls
        [Subscribe 2,
         LoadStats ''u2'' (Num 0) 2592000000 (CountResolves (Some 5) None) (CountResolves None None),
         RecordDownload ''u2'' ''a.pdf'' ''application/pdf'' (Some ''f1'') (Resolves None None)]
        (clear loaded_stats))
     = [\<lparr>filesDownloaded = Num 5, eventsAttended = Num 0, monthsActive = Num 1\<rparr>,
        \<lparr>filesDownloaded = Num 6, eventsAttended = Num 0, monthsActive = Num 1\<rparr>]"
proof -
  let ?calls = "[Subscribe 2,
        LoadStats ''u2'' (Num 0) 2592000000 (CountResolves (Some 5) None) (CountResolves None None),
        RecordDownload ''u2'' ''a.pdf'' ''application/pdf'' (Some ''f1'') (Resolves None None)]"
  note t = clear_resets [of loaded_stats 1 ?calls]
  have n: "\<not> list_ex (is_Subscribe 1) ?calls" by simp
  have a: "listeners loaded_stats = [1]" by (simp add: loaded_stats_value)
  have b: "getCurrentStats (clear loaded_stats) = None \<and> listeners (clear loaded_stats) = []"
    using t by blast
  have "delivered_to 1 (stats_calls ?calls (clear loaded_stats)) = delivered_to 1 loaded_stats"
    using t n by blast
  then have c: "delivered_to 1 (stats_calls ?calls (clear loaded_stats))
      = [\<lparr>filesDownloaded = Num 3, eventsAttended = Num 1, monthsActive = Num 3\<rparr>]"
    by (simp add: loaded_stats_value delivered_to_def)
  have d: "delivered_to 2 (stats_calls ?calls (clear loaded_stats))
     = [\<lparr>filesDownloaded = Num 5, eventsAttended = Num 0, monthsActive = Num 1\<rparr>,
        \<lparr>filesDownloaded = Num 6, eventsAttended = Num 0, monthsActive = Num 1\<rparr>]"
    by (simp add: loaded_stats_value clear_def subscribe_def loadStats_def recordDownload_def
        insert_or_throw_def try_catch_def await_def notify_def delivered_to_def Let_def)
  show ?thesis using a b c d n by blast
qed

section \<open>Ownership-constrained mutations\<close>

lemma no_match_filter:
  "\<not> list_ex (matches eqs) table \<Longrightarrow>
     filter (matches eqs) table = [] \<and> filter (\<lambda>r. \<not> matches eqs r) table = table \<and>
     map (\<lambda>r. if matches eqs r then spread r patch else r) table = table"
  by (induction table) simp_all

text \<open>
  When no row has both the id and the requester as its author, neither method changes
  the table. \<open>updatePost\<close> then returns an error, through \<open>.single()\<close>;
  \<open>deletePost\<close> returns \<open>{ success: true, error: null }\<close>.
\<close>

lemma updatePost_non_owner:
  "\<not> list_ex (matches [(''id'', JStr pid), (''author_id'', JStr uid)]) table \<Longrightarrow>
   updatePost_remote joined pid updates uid table =
     (Inr \<lparr>data = None,
           service_error =
             Some (ErrorObj ''JSON object requested, multiple (or no) rows returned'')\<rparr>,
      table)"
  using no_match_filter [of "[(''id'', JStr pid), (''author_id'', JStr uid)]" table]
  by (simp add: updatePost_remote_def remote_update_single_def updatePost_def try_catch_def
      await_def single_result_def)

lemma deletePost_non_owner:
  "\<not> list_ex (matches [(''id'', JStr pid), (''author_id'', JStr uid)]) table \<Longrightarrow>
   deletePost_remote pid uid table = (Inr \<lparr>success = True, delete_error = None\<rparr>, table)"
  using no_match_filter [of "[(''id'', JStr pid), (''author_id'', JStr uid)]" table]
  by (simp add: deletePost_remote_def remote_delete_def deletePost_def try_catch_def await_def)

lemma mallory_matches_nothing:
  "\<not> list_ex (matches [(''id'', JStr ''p1''), (''author_id'', JStr ''mallory'')])
       [post_first, post_T]"
  by (simp add: matches_def post_first_def post_T_def)

text \<open>
  C2. The post \<open>p1\<close> has author \<open>U\<close>. A delete of \<open>p1\<close> requested by
  \<open>mallory\<close> leaves the table as it was and returns \<open>success = true\<close>, where the
  claim has a failure; the update by the same requester returns the error.
\<close>

theorem deletePost_non_owner_reports_success:
  "deletePost_remote ''p1'' ''mallory'' [post_first, post_T]
     = (Inr \<lparr>success = True, delete_error = None\<rparr>, [post_first, post_T]) \<and>
   updatePost_remote (\<lambda>r. r) ''p1'' [''title'' \<mapsto> JStr ''defaced''] ''mallory''
       [post_first, post_T]
     = (Inr \<lparr>data = None,
             service_error =
               Some (ErrorObj ''JSON object requested, multiple (or no) rows returned'')\<rparr>,
        [post_first, post_T])"
  using deletePost_non_owner [OF mallory_matches_nothing]
    updatePost_non_owner [OF mallory_matches_nothing]
  by simp

end
